theory Spec2Isabelle
  imports Complex_Main "HOL-Library.Log_Nat"
begin

section \<open>Module constants of \<^verbatim>\<open>lib/dcMotor.py\<close>\<close>

text \<open>
  \<^verbatim>\<open>CCW = const(0)\<close>, \<^verbatim>\<open>CW = const(1)\<close>, \<^verbatim>\<open>PWMRESOLUTIONBITS = const(10)\<close>.
  A direction is a Python integer: \<^verbatim>\<open>rotate\<close> accepts any value and compares it
  with \<^verbatim>\<open>CW\<close>.
\<close>

definition CCW :: int where
  "CCW = 0"

definition CW :: int where
  "CW = 1"

definition PWMRESOLUTIONBITS :: nat where
  "PWMRESOLUTIONBITS = 10"

section \<open>The mapping function\<close>

text \<open>
  \<^verbatim>\<open>map\<close> works in Python floats: \<^verbatim>\<open>/\<close> is true division, the products and sums
  are float operations and \<^verbatim>\<open>math.trunc\<close> cuts the result towards zero.
  A float operation returns the exact result rounded to the float format of the platform
  (single precision in MicroPython builds for small boards, binary64 in CPython). The rounding
  is the parameter \<open>fl\<close> of the model; an integer operand is converted first
  (\<open>fl (of_int n)\<close>). The exact results are rationals.
  The only exception the function can raise is the division by zero.
\<close>

datatype py_error = ZeroDivisionError

definition trunc :: "rat \<Rightarrow> int" where
  "trunc r = (if 0 \<le> r then \<lfloor>r\<rfloor> else \<lceil>r\<rceil>)"

definition map_py :: "(rat \<Rightarrow> rat) \<Rightarrow> int \<Rightarrow> int \<Rightarrow> int \<Rightarrow> int \<Rightarrow> int \<Rightarrow> py_error + int" where
  "map_py fl x inMin inMax outMin outMax =
     (if inMax - inMin = 0 then Inl ZeroDivisionError
      else
        let m = fl (fl (of_int (outMax - outMin)) / fl (of_int (inMax - inMin)));
            q = fl (fl (of_int outMax) - fl (m * fl (of_int inMax)))
        in Inr (trunc (fl (fl (fl (m * fl (of_int x)) + q) + 1 / 2))))"

text \<open>
  Two roundings are used for the parameter \<open>fl\<close>: \<open>id\<close> (exact operations) and
  \<open>fl_binary p\<close>, the rounding to the nearest binary float with a significand of \<open>p\<close>
  bits, ties to the even significand (\<open>p = 24\<close> is binary32, \<open>p = 53\<close> is binary64).
  The exponent range is not bounded: overflow to infinity and subnormal numbers are not
  modelled. \<open>float_exp r\<close> is the exponent \<open>e\<close> with \<open>2\<^sup>e \<le> \<bar>r\<bar> < 2\<^sup>e\<^sup>+\<^sup>1\<close>.
\<close>

definition round_half_even :: "rat \<Rightarrow> int" where
  "round_half_even r =
     (let f = \<lfloor>r\<rfloor>; d = r - of_int f
      in if d < 1 / 2 then f else if 1 / 2 < d then f + 1 else if even f then f else f + 1)"

definition float_exp :: "rat \<Rightarrow> int" where
  "float_exp r =
     (if 1 \<le> \<bar>r\<bar> then bitlen \<lfloor>\<bar>r\<bar>\<rfloor> - 1
      else - bitlen (\<lceil>1 / \<bar>r\<bar>\<rceil> - 1))"

definition fl_binary :: "nat \<Rightarrow> rat \<Rightarrow> rat" where
  "fl_binary p r =
     (if r = 0 then 0
      else let u = 2 powi (float_exp r - int p + 1)
           in of_int (round_half_even (r / u)) * u)"

section \<open>The motor object and its hardware\<close>

text \<open>
  One write to the hardware: \<^verbatim>\<open>_pin1.value(v)\<close>, \<^verbatim>\<open>_pin2.value(v)\<close> or
  \<^verbatim>\<open>_pinPwm.duty(d)\<close>.
\<close>

datatype hw_write = Pin1 int | Pin2 int | Duty int

text \<open>
  The fields of \<^verbatim>\<open>DCmotor\<close> under their source names (without the underscore;
  \<^verbatim>\<open>_id\<close> is \<open>motorID\<close>). \<open>pinPwm\<close>, \<open>pin1\<close> and \<open>pin2\<close> hold the value last
  written to the PWM channel and to the two direction pins, \<open>hw\<close> lists every write in
  program order (oldest first). \<^verbatim>\<open>ticks_ms()\<close> is an input: \<open>clock\<close> gives its
  successive results and \<open>reads\<close> counts the calls made so far.
\<close>

record DCmotor =
  motorID :: string
  pinPwm :: int
  pin1 :: int
  pin2 :: int
  rotation :: int
  dutyMax :: int
  dutyMin :: int
  firstRun :: bool
  msPrevious :: int
  accelMode :: int
  sp :: int
  hw :: "hw_write list"
  clock :: "nat \<Rightarrow> int"
  reads :: nat

text \<open>
  \<^verbatim>\<open>__init__(motorID, pinPwmEnab, pin1, pin2, pwmFrequency)\<close>. The pin numbers and
  the PWM frequency only select and configure the hardware channels; the PWM channel
  is created with duty 0.
\<close>

definition init :: "string \<Rightarrow> (nat \<Rightarrow> int) \<Rightarrow> DCmotor" where
  "init ident clk =
     \<lparr> motorID = ident, pinPwm = 0, pin1 = 1, pin2 = 0, rotation = CW,
       dutyMax = 2 ^ PWMRESOLUTIONBITS - 1, dutyMin = 0,
       firstRun = True, msPrevious = 0, accelMode = 0, sp = 0,
       hw = [Duty 0, Pin1 1, Pin2 0], clock = clk, reads = 0 \<rparr>"

definition ticks_ms :: "DCmotor \<Rightarrow> int \<times> DCmotor" where
  "ticks_ms w = (clock w (reads w), w\<lparr>reads := Suc (reads w)\<rparr>)"

section \<open>The immediate operations\<close>

definition rotate_py :: "DCmotor \<Rightarrow> int \<Rightarrow> DCmotor" where
  "rotate_py w direction =
     (if direction = CW
      then w\<lparr>pin1 := 1, pin2 := 0, hw := hw w @ [Pin1 1, Pin2 0], rotation := CW\<rparr>
      else w\<lparr>pin1 := 0, pin2 := 1, hw := hw w @ [Pin1 0, Pin2 1], rotation := CCW\<rparr>)"

definition reverseRotation :: "DCmotor \<Rightarrow> DCmotor" where
  "reverseRotation w = w\<lparr>rotation := (if rotation w = CCW then CW else CCW)\<rparr>"

definition brake :: "DCmotor \<Rightarrow> DCmotor" where
  "brake w = w\<lparr>pin1 := 0, pin2 := 0, pinPwm := 0, hw := hw w @ [Pin1 0, Pin2 0, Duty 0]\<rparr>"

definition run :: "(rat \<Rightarrow> rat) \<Rightarrow> DCmotor \<Rightarrow> int \<Rightarrow> py_error + DCmotor" where
  "run fl w speed =
     (case map_py fl speed 0 100 (dutyMin w) (dutyMax w) of
        Inl e \<Rightarrow> Inl e
      | Inr duty \<Rightarrow> Inr (rotate_py (w\<lparr>pinPwm := duty, hw := hw w @ [Duty duty]\<rparr>) (rotation w)))"

section \<open>The timed operations\<close>

definition runFor :: "(rat \<Rightarrow> rat) \<Rightarrow> DCmotor \<Rightarrow> int \<Rightarrow> int \<Rightarrow> py_error + bool \<times> DCmotor" where
  "runFor fl w speed msToRun =
     (let w1 = (if firstRun w
                then (let (t, w') = ticks_ms w in w'\<lparr>msPrevious := t, firstRun := False\<rparr>)
                else w)
      in case (if speed \<ge> 0 then run fl w1 speed else Inr w1) of
           Inl e \<Rightarrow> Inl e
         | Inr w2 \<Rightarrow>
             (let (t, w3) = ticks_ms w2;
                  w4 = (if t - msPrevious w3 > msToRun
                        then (brake w3)\<lparr>firstRun := True\<rparr>
                        else w3)
              in Inr (firstRun w4, w4)))"

definition waitFor :: "DCmotor \<Rightarrow> int \<Rightarrow> bool \<times> DCmotor" where
  "waitFor w msToWait =
     (let w1 = (if firstRun w
                then (let (t, w') = ticks_ms (brake w) in w'\<lparr>msPrevious := t, firstRun := False\<rparr>)
                else w);
          (t, w2) = ticks_ms w1;
          w3 = (if t - msPrevious w2 > msToWait then w2\<lparr>firstRun := True\<rparr> else w2)
      in (firstRun w3, w3))"

text \<open>
  \<^verbatim>\<open>accelerate\<close> has two early returns. Each of its three mode blocks yields
  \<open>Some r\<close> when it returns \<open>r\<close> and \<open>None\<close> when control falls through to the next
  statement.
\<close>

definition accelerate ::
  "(rat \<Rightarrow> rat) \<Rightarrow> DCmotor \<Rightarrow> int \<Rightarrow> int \<Rightarrow> int \<Rightarrow> py_error + bool \<times> DCmotor" where
  "accelerate fl w speedFrom speedTo msWait =
     (let w1 = (if firstRun w
                then (let (t, wa) = ticks_ms (w\<lparr>sp := speedFrom\<rparr>);
                          wb = wa\<lparr>msPrevious := t\<rparr>;
                          wc = (if speedFrom < speedTo then wb\<lparr>accelMode := 0\<rparr> else wb);
                          wd = (if speedFrom > speedTo then wc\<lparr>accelMode := 1\<rparr> else wc);
                          we = (if speedFrom = speedTo then wd\<lparr>accelMode := 2\<rparr> else wd)
                      in we\<lparr>firstRun := False\<rparr>)
                else w)
      in case run fl w1 (sp w1) of
           Inl e \<Rightarrow> Inl e
         | Inr w2 \<Rightarrow>
             (let (r0, w3) =
                    (if accelMode w2 = 0
                     then (if sp w2 \<le> speedTo
                           then (let (ms, wa) = ticks_ms w2
                                 in (None, if ms - msPrevious wa > msWait
                                           then wa\<lparr>msPrevious := ms, sp := sp wa + 1\<rparr>
                                           else wa))
                           else (Some True, w2\<lparr>firstRun := True\<rparr>))
                     else (None, w2))
              in case r0 of
                   Some r \<Rightarrow> Inr (r, w3)
                 | None \<Rightarrow>
                     (let (r1, w4) =
                            (if accelMode w3 = 1
                             then (if sp w3 \<ge> speedTo
                                   then (let (ms, wa) = ticks_ms w3
                                         in (None, if ms - msPrevious wa > msWait
                                                   then wa\<lparr>msPrevious := ms, sp := sp wa - 1\<rparr>
                                                   else wa))
                                   else (Some True, w3\<lparr>firstRun := True\<rparr>))
                             else (None, w3))
                      in case r1 of
                           Some r \<Rightarrow> Inr (r, w4)
                         | None \<Rightarrow>
                             (if accelMode w4 = 2
                              then Inr (True, w4\<lparr>firstRun := False\<rparr>)
                              else Inr (False, w4)))))"

section \<open>Polling\<close>

text \<open>
  The caller polls a timed operation once per tick of its loop (\<^verbatim>\<open>taskA\<close> and
  \<^verbatim>\<open>taskB\<close> of \<^verbatim>\<open>main.py\<close>). Each polling function makes \<open>n\<close> successive calls
  and collects their results.
\<close>

fun poll_runFor :: "(rat \<Rightarrow> rat) \<Rightarrow> DCmotor \<Rightarrow> int \<Rightarrow> int \<Rightarrow> nat \<Rightarrow> py_error + bool list \<times> DCmotor" where
  "poll_runFor fl w speed msToRun 0 = Inr ([], w)"
| "poll_runFor fl w speed msToRun (Suc n) =
     (case runFor fl w speed msToRun of
        Inl e \<Rightarrow> Inl e
      | Inr (b, w') \<Rightarrow>
          (case poll_runFor fl w' speed msToRun n of
             Inl e \<Rightarrow> Inl e
           | Inr (bs, w'') \<Rightarrow> Inr (b # bs, w'')))"

fun poll_waitFor :: "DCmotor \<Rightarrow> int \<Rightarrow> nat \<Rightarrow> bool list \<times> DCmotor" where
  "poll_waitFor w msToWait 0 = ([], w)"
| "poll_waitFor w msToWait (Suc n) =
     (case waitFor w msToWait of
        (b, w') \<Rightarrow> (case poll_waitFor w' msToWait n of (bs, w'') \<Rightarrow> (b # bs, w'')))"

fun poll_accelerate ::
  "(rat \<Rightarrow> rat) \<Rightarrow> DCmotor \<Rightarrow> int \<Rightarrow> int \<Rightarrow> int \<Rightarrow> nat \<Rightarrow> py_error + bool list \<times> DCmotor" where
  "poll_accelerate fl w speedFrom speedTo msWait 0 = Inr ([], w)"
| "poll_accelerate fl w speedFrom speedTo msWait (Suc n) =
     (case accelerate fl w speedFrom speedTo msWait of
        Inl e \<Rightarrow> Inl e
      | Inr (b, w') \<Rightarrow>
          (case poll_accelerate fl w' speedFrom speedTo msWait n of
             Inl e \<Rightarrow> Inl e
           | Inr (bs, w'') \<Rightarrow> Inr (b # bs, w'')))"

section \<open>Counter readings of the examples\<close>

text \<open>One reading every 400 ms, and one every 61 ms.\<close>

definition tick400 :: "nat \<Rightarrow> int" where
  "tick400 n = 400 * int n"

definition tick61 :: "nat \<Rightarrow> int" where
  "tick61 n = 61 * int n"

text \<open>
  A counter of period \<open>2 ^ 30\<close> that overflows after its second reading: the readings
  are \<open>2 ^ 30 - 10\<close>, \<open>2 ^ 30 - 10\<close> and then 5.
\<close>

definition wrap_clock :: "nat \<Rightarrow> int" where
  "wrap_clock n = (if n < 2 then 2 ^ 30 - 10 else 5)"

section \<open>The wording of the spec\<close>

text \<open>
  The elapsed time as the spec words it: the wraparound-safe (modular) distance from
  the anchor to the current reading of a counter that counts modulo \<open>period\<close>. The
  period of \<^verbatim>\<open>ticks_ms\<close> belongs to the firmware and is a parameter here.
\<close>

definition spec_elapsed :: "int \<Rightarrow> int \<Rightarrow> int \<Rightarrow> int" where
  "spec_elapsed period now anchor = (now - anchor) mod period"



section \<open>Basic facts\<close>

text \<open>Floor and ceiling of a quotient of numerals, for evaluating \<open>trunc\<close>.\<close>

lemma floor_rat_numeral: "\<lfloor>numeral a / numeral b :: rat\<rfloor> = numeral a div numeral b"
  by (metis floor_divide_of_int_eq of_int_numeral)

lemma floor_rat_one_numeral: "\<lfloor>1 / numeral b :: rat\<rfloor> = 1 div numeral b"
  by (metis floor_divide_of_int_eq of_int_1 of_int_numeral)




lemma map_py_Inr:
  "inMin \<noteq> inMax \<Longrightarrow> \<exists>d. map_py fl x inMin inMax outMin outMax = Inr d"
  by (simp add: map_py_def Let_def)

lemma run_Inr:
  "\<exists>d. map_py fl speed 0 100 (dutyMin w) (dutyMax w) = Inr d \<and>
        run fl w speed = Inr (rotate_py (w\<lparr>pinPwm := d, hw := hw w @ [Duty d]\<rparr>) (rotation w))"
  by (simp add: run_def map_py_def Let_def)

lemma runFor_call:
  "\<exists>d w'. map_py fl speed 0 100 (dutyMin w) (dutyMax w) = Inr d \<and>
     runFor fl w speed ms =
       Inr (ms < clock w (if firstRun w then Suc (reads w) else reads w)
                 - (if firstRun w then clock w (reads w) else msPrevious w), w') \<and>
     msPrevious w' = (if firstRun w then clock w (reads w) else msPrevious w) \<and>
     firstRun w' = (ms < clock w (if firstRun w then Suc (reads w) else reads w)
                 - (if firstRun w then clock w (reads w) else msPrevious w)) \<and>
     reads w' = (if firstRun w then Suc (Suc (reads w)) else Suc (reads w)) \<and>
     clock w' = clock w \<and> dutyMin w' = dutyMin w \<and> dutyMax w' = dutyMax w \<and>
     (rotation w' = CW) = (rotation w = CW) \<and>
     hw w' = hw w
        @ (if 0 \<le> speed then [Duty d, Pin1 (if rotation w = CW then 1 else 0),
                          Pin2 (if rotation w = CW then 0 else 1)] else [])
        @ (if firstRun w' then [Pin1 0, Pin2 0, Duty 0] else []) \<and>
     (firstRun w' \<longrightarrow> pin1 w' = 0 \<and> pin2 w' = 0 \<and> pinPwm w' = 0)"
proof -
  obtain d where d: "map_py fl speed 0 100 (dutyMin w) (dutyMax w) = Inr d"
    using map_py_Inr [of 0 100] by fastforce
  show ?thesis
  proof (cases "firstRun w")
    case True
    show ?thesis
    proof (cases "0 \<le> speed")
      case True
      with \<open>firstRun w\<close> d show ?thesis
        by (simp add: runFor_def run_def Let_def rotate_py_def ticks_ms_def brake_def CW_def CCW_def)
    next
      case False
      with \<open>firstRun w\<close> d show ?thesis
        by (simp add: runFor_def Let_def ticks_ms_def brake_def)
    qed
  next
    case False
    show ?thesis
    proof (cases "0 \<le> speed")
      case True
      with \<open>\<not> firstRun w\<close> d show ?thesis
        by (simp add: runFor_def run_def Let_def rotate_py_def ticks_ms_def brake_def CW_def CCW_def)
    next
      case False
      with \<open>\<not> firstRun w\<close> d show ?thesis
        by (simp add: runFor_def Let_def ticks_ms_def brake_def)
    qed
  qed
qed


section \<open>Direction of rotation\<close>

text \<open>
  Claim C10. For every direction argument \<open>d\<close>, \<^verbatim>\<open>rotate(d)\<close> asserts exactly one of
  the two direction pins: with \<open>d = CW\<close> it writes pin 1 high and pin 2 low and stores
  \<open>CW\<close>; with every other value, also one that is neither \<open>CW\<close> nor \<open>CCW\<close>, it writes
  pin 1 low and pin 2 high and stores \<open>CCW\<close>. No argument is rejected (the function is
  total), every call leaves the two pins in one of the two exclusive patterns, and
  nothing else in the object changes.
\<close>

theorem rotate_exclusive_pins:
  "(d = CW \<longrightarrow>
      pin1 (rotate_py w d) = 1 \<and> pin2 (rotate_py w d) = 0 \<and> rotation (rotate_py w d) = CW \<and>
      hw (rotate_py w d) = hw w @ [Pin1 1, Pin2 0])
   \<and> (d \<noteq> CW \<longrightarrow>
      pin1 (rotate_py w d) = 0 \<and> pin2 (rotate_py w d) = 1 \<and> rotation (rotate_py w d) = CCW \<and>
      hw (rotate_py w d) = hw w @ [Pin1 0, Pin2 1])
   \<and> pin1 (rotate_py w d) + pin2 (rotate_py w d) = 1
   \<and> rotate_py w d =
       w\<lparr>pin1 := pin1 (rotate_py w d), pin2 := pin2 (rotate_py w d),
         hw := hw (rotate_py w d), rotation := rotation (rotate_py w d)\<rparr>"
  by (simp add: rotate_py_def)

theorem rotate_exclusive_pins_witness:
  "(7::int) \<noteq> CW \<and> 7 \<noteq> CCW
   \<and> pin1 (rotate_py (init ''A'' (\<lambda>n. 0)) 7) = 0
   \<and> pin2 (rotate_py (init ''A'' (\<lambda>n. 0)) 7) = 1
   \<and> rotation (rotate_py (init ''A'' (\<lambda>n. 0)) 7) = CCW
   \<and> pin1 (rotate_py (init ''A'' (\<lambda>n. 0)) CW) = 1
   \<and> pin2 (rotate_py (init ''A'' (\<lambda>n. 0)) CW) = 0
   \<and> hw (rotate_py (init ''A'' (\<lambda>n. 0)) CW) = [Duty 0, Pin1 1, Pin2 0, Pin1 1, Pin2 0]"
  using rotate_exclusive_pins [of 7 "init ''A'' (\<lambda>n. 0)"]
    rotate_exclusive_pins [of CW "init ''A'' (\<lambda>n. 0)"]
  by (simp add: CW_def CCW_def init_def)

text \<open>
  Claim C9. \<^verbatim>\<open>reverseRotation()\<close> changes only the stored rotation (\<open>CW\<close> becomes
  \<open>CCW\<close> and \<open>CCW\<close> becomes \<open>CW\<close>): the two direction pins, the PWM duty and the
  list of hardware writes stay as they were. The pins show the flipped direction
  after the next \<^verbatim>\<open>run()\<close>, or the next \<^verbatim>\<open>rotate()\<close> with the stored rotation.
\<close>

theorem reverseRotation_only_rotation:
  "reverseRotation w = w\<lparr>rotation := rotation (reverseRotation w)\<rparr>
   \<and> (rotation w = CW \<longrightarrow> rotation (reverseRotation w) = CCW)
   \<and> (rotation w = CCW \<longrightarrow> rotation (reverseRotation w) = CW)
   \<and> pin1 (reverseRotation w) = pin1 w \<and> pin2 (reverseRotation w) = pin2 w
   \<and> pinPwm (reverseRotation w) = pinPwm w \<and> hw (reverseRotation w) = hw w
   \<and> (\<exists>w'. run fl (reverseRotation w) speed = Inr w'
          \<and> pin1 w' = (if rotation w = CCW then 1 else 0)
          \<and> pin2 w' = (if rotation w = CCW then 0 else 1))
   \<and> pin1 (rotate_py (reverseRotation w) (rotation (reverseRotation w)))
        = (if rotation w = CCW then 1 else 0)
   \<and> pin2 (rotate_py (reverseRotation w) (rotation (reverseRotation w)))
        = (if rotation w = CCW then 0 else 1)"
  by (simp add: reverseRotation_def run_def map_py_def Let_def rotate_py_def CW_def CCW_def)

theorem reverseRotation_only_rotation_witness:
  "rotation (init ''A'' (\<lambda>n. 0)) = CW
   \<and> rotation (reverseRotation (init ''A'' (\<lambda>n. 0))) = CCW
   \<and> rotation (reverseRotation (reverseRotation (init ''A'' (\<lambda>n. 0)))) = CW
   \<and> pin1 (reverseRotation (init ''A'' (\<lambda>n. 0))) = 1
   \<and> pin2 (reverseRotation (init ''A'' (\<lambda>n. 0))) = 0
   \<and> (\<exists>w'. run (\<lambda>r. r) (reverseRotation (init ''A'' (\<lambda>n. 0))) 30 = Inr w'
          \<and> pin1 w' = 0 \<and> pin2 w' = 1)"
  using reverseRotation_only_rotation [of "init ''A'' (\<lambda>n. 0)" "\<lambda>r. r" 30]
    reverseRotation_only_rotation [of "reverseRotation (init ''A'' (\<lambda>n. 0))"]
  by (simp add: CW_def CCW_def init_def)

section \<open>\<^verbatim>\<open>runFor\<close>\<close>

lemma poll_runFor_ticking:
  assumes "\<not> firstRun w"
    and "\<forall>k<n. clock w (reads w + k) - msPrevious w \<le> ms"
    and "ms < clock w (reads w + n) - msPrevious w"
    and "map_py fl speed 0 100 (dutyMin w) (dutyMax w) = Inr d"
  shows "\<exists>w'. poll_runFor fl w speed ms (Suc n) = Inr (replicate n False @ [True], w') \<and>
     firstRun w' \<and> msPrevious w' = msPrevious w \<and> reads w' = Suc (reads w + n) \<and>
     pin1 w' = 0 \<and> pin2 w' = 0 \<and> pinPwm w' = 0 \<and>
     clock w' = clock w \<and> dutyMin w' = dutyMin w \<and> dutyMax w' = dutyMax w \<and>
     (rotation w' = CW) = (rotation w = CW) \<and>
     hw w' = hw w
        @ concat (replicate (Suc n)
            (if 0 \<le> speed then [Duty d, Pin1 (if rotation w = CW then 1 else 0),
                          Pin2 (if rotation w = CW then 0 else 1)] else []))
        @ [Pin1 0, Pin2 0, Duty 0]"
  using assms
proof (induction n arbitrary: w)
  case 0
  then show ?case
    using runFor_call [of fl speed w ms] by auto
next
  case (Suc n)
  obtain w1 where w1: "runFor fl w speed ms = Inr (False, w1)" "\<not> firstRun w1"
    "msPrevious w1 = msPrevious w" "reads w1 = Suc (reads w)" "clock w1 = clock w"
    "dutyMin w1 = dutyMin w" "dutyMax w1 = dutyMax w" "(rotation w1 = CW) = (rotation w = CW)"
    "hw w1 = hw w @ (if 0 \<le> speed then [Duty d, Pin1 (if rotation w = CW then 1 else 0),
                          Pin2 (if rotation w = CW then 0 else 1)] else [])"
    using runFor_call [of fl speed w ms] Suc.prems by force
  have "\<forall>k<n. clock w1 (reads w1 + k) - msPrevious w1 \<le> ms"
    using Suc.prems(2) w1 by (metis Suc_less_eq add_Suc_shift)
  moreover have "ms < clock w1 (reads w1 + n) - msPrevious w1"
    using Suc.prems(3) w1 by simp
  moreover have "map_py fl speed 0 100 (dutyMin w1) (dutyMax w1) = Inr d"
    using Suc.prems(4) w1 by simp
  ultimately obtain w' where
    "poll_runFor fl w1 speed ms (Suc n) = Inr (replicate n False @ [True], w')"
    "firstRun w'" "msPrevious w' = msPrevious w1" "reads w' = Suc (reads w1 + n)"
    "pin1 w' = 0" "pin2 w' = 0" "pinPwm w' = 0"
    "clock w' = clock w1" "dutyMin w' = dutyMin w1" "dutyMax w' = dutyMax w1"
    "(rotation w' = CW) = (rotation w1 = CW)"
    "hw w' = hw w1
        @ concat (replicate (Suc n)
            (if 0 \<le> speed then [Duty d, Pin1 (if rotation w1 = CW then 1 else 0),
                          Pin2 (if rotation w1 = CW then 0 else 1)] else []))
        @ [Pin1 0, Pin2 0, Duty 0]"
    using Suc.IH [OF w1(2)] by blast
  with w1 show ?case
    by simp
qed


text \<open>
  Claim C4. \<^verbatim>\<open>runFor(speed, msToRun)\<close> polled from the armed state: the first call
  records the anchor (the counter reading it takes); every call invokes \<^verbatim>\<open>run(speed)\<close>
  exactly when \<open>speed \<ge> 0\<close> (a duty write and two pin writes per call, none for a
  negative speed); the calls return false as long as the reading taken in the call
  minus the anchor is at most \<open>msToRun\<close>, and the first call whose reading exceeds
  the anchor by more than \<open>msToRun\<close> brakes the motor, rearms and returns true. The
  next call then starts a new cycle with a new anchor.
\<close>

theorem runFor_cycle:
  assumes "firstRun w"
    and "\<forall>k<n. clock w (Suc (reads w) + k) - clock w (reads w) \<le> msToRun"
    and "msToRun < clock w (Suc (reads w) + n) - clock w (reads w)"
  shows "\<exists>d w'. map_py fl speed 0 100 (dutyMin w) (dutyMax w) = Inr d \<and>
     poll_runFor fl w speed msToRun (Suc n) = Inr (replicate n False @ [True], w') \<and>
     firstRun w' \<and> msPrevious w' = clock w (reads w) \<and>
     pin1 w' = 0 \<and> pin2 w' = 0 \<and> pinPwm w' = 0 \<and>
     hw w' = hw w
        @ concat (replicate (Suc n)
            (if 0 \<le> speed then [Duty d, Pin1 (if rotation w = CW then 1 else 0),
                          Pin2 (if rotation w = CW then 0 else 1)] else []))
        @ [Pin1 0, Pin2 0, Duty 0] \<and>
     (\<exists>b w''. runFor fl w' speed msToRun = Inr (b, w'') \<and>
         msPrevious w'' = clock w (Suc (Suc (reads w + n))))"
proof -
  obtain d where d: "map_py fl speed 0 100 (dutyMin w) (dutyMax w) = Inr d"
    using map_py_Inr [of 0 100] by fastforce
  have "\<exists>w'. poll_runFor fl w speed msToRun (Suc n) = Inr (replicate n False @ [True], w') \<and>
     firstRun w' \<and> msPrevious w' = clock w (reads w) \<and>
     pin1 w' = 0 \<and> pin2 w' = 0 \<and> pinPwm w' = 0 \<and>
     reads w' = Suc (Suc (reads w + n)) \<and> clock w' = clock w \<and>
     hw w' = hw w
        @ concat (replicate (Suc n)
            (if 0 \<le> speed then [Duty d, Pin1 (if rotation w = CW then 1 else 0),
                          Pin2 (if rotation w = CW then 0 else 1)] else []))
        @ [Pin1 0, Pin2 0, Duty 0]"
  proof (cases n)
    case 0
    with assms d show ?thesis
      using runFor_call [of fl speed w msToRun] by auto
  next
    case (Suc m)
    obtain w1 where w1: "runFor fl w speed msToRun = Inr (False, w1)" "\<not> firstRun w1"
      "msPrevious w1 = clock w (reads w)" "reads w1 = Suc (Suc (reads w))" "clock w1 = clock w"
      "dutyMin w1 = dutyMin w" "dutyMax w1 = dutyMax w" "(rotation w1 = CW) = (rotation w = CW)"
      "hw w1 = hw w @ (if 0 \<le> speed then [Duty d, Pin1 (if rotation w = CW then 1 else 0),
                          Pin2 (if rotation w = CW then 0 else 1)] else [])"
      using runFor_call [of fl speed w msToRun] assms d Suc by force
    have "\<forall>k<m. clock w1 (reads w1 + k) - msPrevious w1 \<le> msToRun"
      using assms(2) w1 Suc by (metis Suc_less_eq add_Suc_shift add_Suc)
    moreover have "msToRun < clock w1 (reads w1 + m) - msPrevious w1"
      using assms(3) w1 Suc by simp
    moreover have "map_py fl speed 0 100 (dutyMin w1) (dutyMax w1) = Inr d"
      using d w1 by simp
    ultimately obtain w' where
      "poll_runFor fl w1 speed msToRun (Suc m) = Inr (replicate m False @ [True], w')"
      "firstRun w'" "msPrevious w' = msPrevious w1" "reads w' = Suc (reads w1 + m)"
      "pin1 w' = 0" "pin2 w' = 0" "pinPwm w' = 0" "clock w' = clock w1"
      "hw w' = hw w1
          @ concat (replicate (Suc m)
              (if 0 \<le> speed then [Duty d, Pin1 (if rotation w1 = CW then 1 else 0),
                            Pin2 (if rotation w1 = CW then 0 else 1)] else []))
          @ [Pin1 0, Pin2 0, Duty 0]"
      using poll_runFor_ticking [OF w1(2), of m msToRun fl speed d] by blast
    with w1 Suc show ?thesis
      by simp
  qed
  then obtain w' where w': "poll_runFor fl w speed msToRun (Suc n) = Inr (replicate n False @ [True], w')"
     "firstRun w'" "msPrevious w' = clock w (reads w)"
     "pin1 w' = 0" "pin2 w' = 0" "pinPwm w' = 0"
     "reads w' = Suc (Suc (reads w + n))" "clock w' = clock w"
     "hw w' = hw w
        @ concat (replicate (Suc n)
            (if 0 \<le> speed then [Duty d, Pin1 (if rotation w = CW then 1 else 0),
                          Pin2 (if rotation w = CW then 0 else 1)] else []))
        @ [Pin1 0, Pin2 0, Duty 0]"
    by blast
  have "\<exists>b w''. runFor fl w' speed msToRun = Inr (b, w'') \<and>
         msPrevious w'' = clock w (Suc (Suc (reads w + n)))"
    using runFor_call [of fl speed w' msToRun] w' by auto
  with d w' show ?thesis
    by blast
qed

theorem runFor_cycle_witness:
  "firstRun (init ''A'' tick400)
   \<and> fst (projr (poll_runFor id (init ''A'' tick400) 30 1000 3)) = [False, False, True]
   \<and> firstRun (snd (projr (poll_runFor id (init ''A'' tick400) 30 1000 3)))
   \<and> hw (snd (projr (poll_runFor id (init ''A'' tick400) 30 1000 3)))
       = [Duty 0, Pin1 1, Pin2 0, Duty 307, Pin1 1, Pin2 0, Duty 307, Pin1 1, Pin2 0,
          Duty 307, Pin1 1, Pin2 0, Pin1 0, Pin2 0, Duty 0]"
proof -
  have a: "firstRun (init ''A'' tick400)"
    by (simp add: init_def)
  have b: "\<forall>k<2. tick400 (Suc (reads (init ''A'' tick400)) + k)
                 - tick400 (reads (init ''A'' tick400)) \<le> 1000"
    by (simp add: init_def tick400_def less_Suc_eq numeral_2_eq_2)
  have c: "1000 < tick400 (Suc (reads (init ''A'' tick400)) + 2)
                 - tick400 (reads (init ''A'' tick400))"
    by (simp add: init_def tick400_def)
  have d: "map_py id 30 0 100 0 1023 = Inr 307"
    by (simp add: map_py_def trunc_def floor_rat_numeral)
  show ?thesis
    using runFor_cycle [of "init ''A'' tick400" 2 1000 id 30] a b c d
    by (auto simp add: init_def tick400_def CW_def PWMRESOLUTIONBITS_def numeral_3_eq_3 numeral_2_eq_2)
qed

section \<open>\<^verbatim>\<open>waitFor\<close>\<close>

lemma waitFor_call:
  "\<exists>w'. waitFor w ms =
       (ms < clock w (if firstRun w then Suc (reads w) else reads w)
                 - (if firstRun w then clock w (reads w) else msPrevious w), w') \<and>
     msPrevious w' = (if firstRun w then clock w (reads w) else msPrevious w) \<and>
     firstRun w' = (ms < clock w (if firstRun w then Suc (reads w) else reads w)
                 - (if firstRun w then clock w (reads w) else msPrevious w)) \<and>
     reads w' = (if firstRun w then Suc (Suc (reads w)) else Suc (reads w)) \<and>
     clock w' = clock w \<and> rotation w' = rotation w \<and>
     hw w' = hw w @ (if firstRun w then [Pin1 0, Pin2 0, Duty 0] else []) \<and>
     pin1 w' = (if firstRun w then 0 else pin1 w) \<and>
     pin2 w' = (if firstRun w then 0 else pin2 w) \<and>
     pinPwm w' = (if firstRun w then 0 else pinPwm w)"
  by (cases "firstRun w") (simp_all add: waitFor_def Let_def ticks_ms_def brake_def)

lemma poll_waitFor_ticking:
  assumes "\<not> firstRun w"
    and "\<forall>k<n. clock w (reads w + k) - msPrevious w \<le> ms"
    and "ms < clock w (reads w + n) - msPrevious w"
  shows "\<exists>w'. poll_waitFor w ms (Suc n) = (replicate n False @ [True], w') \<and>
     firstRun w' \<and> msPrevious w' = msPrevious w \<and> reads w' = Suc (reads w + n) \<and>
     clock w' = clock w \<and> rotation w' = rotation w \<and> hw w' = hw w \<and>
     pin1 w' = pin1 w \<and> pin2 w' = pin2 w \<and> pinPwm w' = pinPwm w"
  using assms
proof (induction n arbitrary: w)
  case 0
  then show ?case
    using waitFor_call [of w ms] by auto
next
  case (Suc n)
  obtain w1 where w1: "waitFor w ms = (False, w1)" "\<not> firstRun w1"
    "msPrevious w1 = msPrevious w" "reads w1 = Suc (reads w)" "clock w1 = clock w"
    "rotation w1 = rotation w" "hw w1 = hw w"
    "pin1 w1 = pin1 w" "pin2 w1 = pin2 w" "pinPwm w1 = pinPwm w"
    using waitFor_call [of w ms] Suc.prems by force
  have "\<forall>k<n. clock w1 (reads w1 + k) - msPrevious w1 \<le> ms"
    using Suc.prems(2) w1 by (metis Suc_less_eq add_Suc_shift)
  moreover have "ms < clock w1 (reads w1 + n) - msPrevious w1"
    using Suc.prems(3) w1 by simp
  ultimately obtain w' where
    "poll_waitFor w1 ms (Suc n) = (replicate n False @ [True], w')"
    "firstRun w'" "msPrevious w' = msPrevious w1" "reads w' = Suc (reads w1 + n)"
    "clock w' = clock w1" "rotation w' = rotation w1" "hw w' = hw w1"
    "pin1 w' = pin1 w1" "pin2 w' = pin2 w1" "pinPwm w' = pinPwm w1"
    using Suc.IH [OF w1(2)] by blast
  with w1 show ?case
    by simp
qed

text \<open>
  Claim C6. \<^verbatim>\<open>waitFor(msToWait)\<close> polled from the armed state calls \<^verbatim>\<open>brake()\<close>
  on its first call and on no later one (the three writes of the brake are the only
  hardware writes of the whole cycle, and they are made by the first call); the first
  call records the anchor; the calls return false as long as the reading taken in the
  call minus the anchor is at most \<open>msToWait\<close>, and the first call whose reading
  exceeds the anchor by more than \<open>msToWait\<close> returns true and rearms at once.
\<close>

theorem waitFor_cycle:
  assumes "firstRun w"
    and "\<forall>k<n. clock w (Suc (reads w) + k) - clock w (reads w) \<le> msToWait"
    and "msToWait < clock w (Suc (reads w) + n) - clock w (reads w)"
  shows "\<exists>w'. poll_waitFor w msToWait (Suc n) = (replicate n False @ [True], w') \<and>
     firstRun w' \<and> msPrevious w' = clock w (reads w) \<and>
     hw (snd (waitFor w msToWait)) = hw w @ [Pin1 0, Pin2 0, Duty 0] \<and>
     msPrevious (snd (waitFor w msToWait)) = clock w (reads w) \<and>
     hw w' = hw w @ [Pin1 0, Pin2 0, Duty 0] \<and>
     pin1 w' = 0 \<and> pin2 w' = 0 \<and> pinPwm w' = 0 \<and> rotation w' = rotation w \<and>
     msPrevious (snd (waitFor w' msToWait)) = clock w (Suc (Suc (reads w + n)))"
proof -
  have first: "hw (snd (waitFor w msToWait)) = hw w @ [Pin1 0, Pin2 0, Duty 0]"
    "msPrevious (snd (waitFor w msToWait)) = clock w (reads w)"
    using waitFor_call [of w msToWait] assms(1) by auto
  have "\<exists>w'. poll_waitFor w msToWait (Suc n) = (replicate n False @ [True], w') \<and>
     firstRun w' \<and> msPrevious w' = clock w (reads w) \<and>
     reads w' = Suc (Suc (reads w + n)) \<and> clock w' = clock w \<and>
     hw w' = hw w @ [Pin1 0, Pin2 0, Duty 0] \<and>
     pin1 w' = 0 \<and> pin2 w' = 0 \<and> pinPwm w' = 0 \<and> rotation w' = rotation w"
  proof (cases n)
    case 0
    with assms show ?thesis
      using waitFor_call [of w msToWait] by auto
  next
    case (Suc m)
    obtain w1 where w1: "waitFor w msToWait = (False, w1)" "\<not> firstRun w1"
      "msPrevious w1 = clock w (reads w)" "reads w1 = Suc (Suc (reads w))" "clock w1 = clock w"
      "rotation w1 = rotation w" "hw w1 = hw w @ [Pin1 0, Pin2 0, Duty 0]"
      "pin1 w1 = 0" "pin2 w1 = 0" "pinPwm w1 = 0"
      using waitFor_call [of w msToWait] assms Suc by force
    have "\<forall>k<m. clock w1 (reads w1 + k) - msPrevious w1 \<le> msToWait"
      using assms(2) w1 Suc by (metis Suc_less_eq add_Suc_shift add_Suc)
    moreover have "msToWait < clock w1 (reads w1 + m) - msPrevious w1"
      using assms(3) w1 Suc by simp
    ultimately obtain w' where
      "poll_waitFor w1 msToWait (Suc m) = (replicate m False @ [True], w')"
      "firstRun w'" "msPrevious w' = msPrevious w1" "reads w' = Suc (reads w1 + m)"
      "clock w' = clock w1" "rotation w' = rotation w1" "hw w' = hw w1"
      "pin1 w' = pin1 w1" "pin2 w' = pin2 w1" "pinPwm w' = pinPwm w1"
      using poll_waitFor_ticking [OF w1(2), of m msToWait] by blast
    with w1 Suc show ?thesis
      by simp
  qed
  then obtain w' where w': "poll_waitFor w msToWait (Suc n) = (replicate n False @ [True], w')"
     "firstRun w'" "msPrevious w' = clock w (reads w)"
     "reads w' = Suc (Suc (reads w + n))" "clock w' = clock w"
     "hw w' = hw w @ [Pin1 0, Pin2 0, Duty 0]"
     "pin1 w' = 0" "pin2 w' = 0" "pinPwm w' = 0" "rotation w' = rotation w"
    by blast
  have "msPrevious (snd (waitFor w' msToWait)) = clock w (Suc (Suc (reads w + n)))"
    using waitFor_call [of w' msToWait] w' by auto
  with first w' show ?thesis
    by blast
qed

theorem waitFor_cycle_witness:
  "firstRun (init ''A'' tick400)
   \<and> fst (poll_waitFor (init ''A'' tick400) 500 2) = [False, True]
   \<and> firstRun (snd (poll_waitFor (init ''A'' tick400) 500 2))
   \<and> hw (snd (waitFor (init ''A'' tick400) 500)) = [Duty 0, Pin1 1, Pin2 0, Pin1 0, Pin2 0, Duty 0]
   \<and> hw (snd (poll_waitFor (init ''A'' tick400) 500 2))
       = [Duty 0, Pin1 1, Pin2 0, Pin1 0, Pin2 0, Duty 0]"
proof -
  have a: "firstRun (init ''A'' tick400)"
    by (simp add: init_def)
  have b: "\<forall>k<1. tick400 (Suc (reads (init ''A'' tick400)) + k)
                 - tick400 (reads (init ''A'' tick400)) \<le> 500"
    by (simp add: init_def tick400_def)
  have c: "500 < tick400 (Suc (reads (init ''A'' tick400)) + 1)
                 - tick400 (reads (init ''A'' tick400))"
    by (simp add: init_def tick400_def)
  show ?thesis
    using waitFor_cycle [of "init ''A'' tick400" 1 500] a b c
    by (auto simp add: init_def tick400_def numeral_2_eq_2)
qed

section \<open>\<^verbatim>\<open>accelerate\<close>\<close>

text \<open>The first call of a cycle is the call in the state that the arming block leaves.\<close>

lemma accelerate_armed:
  "firstRun w \<Longrightarrow>
   accelerate fl w speedFrom speedTo msWait =
   accelerate fl
     (w\<lparr>sp := speedFrom, reads := Suc (reads w), msPrevious := clock w (reads w),
        accelMode := (if speedFrom < speedTo then 0 else if speedTo < speedFrom then 1 else 2),
        firstRun := False\<rparr>) speedFrom speedTo msWait"
  by (simp add: accelerate_def Let_def ticks_ms_def)

lemma accelerate_up:
  assumes "\<not> firstRun w" and "accelMode w = 0"
    and "sp w = s" and "msPrevious w = a" and "clock w (reads w) = t"
  shows "\<exists>d w'. map_py fl s 0 100 (dutyMin w) (dutyMax w) = Inr d \<and>
     accelerate fl w speedFrom speedTo msWait = Inr (speedTo < s, w') \<and>
     firstRun w' = (speedTo < s) \<and> accelMode w' = 0 \<and>
     sp w' = (if s \<le> speedTo \<and> msWait < t - a then s + 1 else s) \<and>
     msPrevious w' = (if s \<le> speedTo \<and> msWait < t - a then t else a) \<and>
     reads w' = (if s \<le> speedTo then Suc (reads w) else reads w) \<and>
     clock w' = clock w \<and> dutyMin w' = dutyMin w \<and> dutyMax w' = dutyMax w \<and>
     (rotation w' = CW) = (rotation w = CW) \<and> pinPwm w' = d \<and>
     hw w' = hw w @ [Duty d, Pin1 (if rotation w = CW then 1 else 0),
                     Pin2 (if rotation w = CW then 0 else 1)]"
proof -
  obtain d where d: "map_py fl (sp w) 0 100 (dutyMin w) (dutyMax w) = Inr d"
    using map_py_Inr [of 0 100] by fastforce
  show ?thesis
  proof (cases "sp w \<le> speedTo")
    case True
    with assms d show ?thesis
      by (simp add: accelerate_def run_def Let_def rotate_py_def ticks_ms_def CW_def CCW_def)
  next
    case False
    with assms d show ?thesis
      by (simp add: accelerate_def run_def Let_def rotate_py_def ticks_ms_def CW_def CCW_def)
  qed
qed

lemma accelerate_down:
  assumes "\<not> firstRun w" and "accelMode w = 1"
    and "sp w = s" and "msPrevious w = a" and "clock w (reads w) = t"
  shows "\<exists>d w'. map_py fl s 0 100 (dutyMin w) (dutyMax w) = Inr d \<and>
     accelerate fl w speedFrom speedTo msWait = Inr (s < speedTo, w') \<and>
     firstRun w' = (s < speedTo) \<and> accelMode w' = 1 \<and>
     sp w' = (if speedTo \<le> s \<and> msWait < t - a then s - 1 else s) \<and>
     msPrevious w' = (if speedTo \<le> s \<and> msWait < t - a then t else a) \<and>
     reads w' = (if speedTo \<le> s then Suc (reads w) else reads w) \<and>
     clock w' = clock w \<and> dutyMin w' = dutyMin w \<and> dutyMax w' = dutyMax w \<and>
     (rotation w' = CW) = (rotation w = CW) \<and> pinPwm w' = d \<and>
     hw w' = hw w @ [Duty d, Pin1 (if rotation w = CW then 1 else 0),
                     Pin2 (if rotation w = CW then 0 else 1)]"
proof -
  obtain d where d: "map_py fl (sp w) 0 100 (dutyMin w) (dutyMax w) = Inr d"
    using map_py_Inr [of 0 100] by fastforce
  show ?thesis
  proof (cases "speedTo \<le> sp w")
    case True
    with assms d show ?thesis
      by (simp add: accelerate_def run_def Let_def rotate_py_def ticks_ms_def CW_def CCW_def)
  next
    case False
    with assms d show ?thesis
      by (simp add: accelerate_def run_def Let_def rotate_py_def ticks_ms_def CW_def CCW_def)
  qed
qed

lemma accelerate_constant:
  assumes "\<not> firstRun w" and "accelMode w = 2"
  shows "\<exists>d w'. map_py fl (sp w) 0 100 (dutyMin w) (dutyMax w) = Inr d \<and>
     accelerate fl w speedFrom speedTo msWait = Inr (True, w') \<and>
     \<not> firstRun w' \<and> accelMode w' = 2 \<and> sp w' = sp w \<and> msPrevious w' = msPrevious w \<and>
     reads w' = reads w \<and> clock w' = clock w \<and> pinPwm w' = d \<and>
     hw w' = hw w @ [Duty d, Pin1 (if rotation w = CW then 1 else 0),
                     Pin2 (if rotation w = CW then 0 else 1)]"
proof -
  obtain d where d: "map_py fl (sp w) 0 100 (dutyMin w) (dutyMax w) = Inr d"
    using map_py_Inr [of 0 100] by fastforce
  with assms show ?thesis
    by (simp add: accelerate_def run_def Let_def rotate_py_def ticks_ms_def CW_def CCW_def)
qed

text \<open>
  Claim C5. One call of \<^verbatim>\<open>accelerate(speedFrom, speedTo, msWait)\<close> at any point of
  a polled cycle: in the armed state, or later in the cycle (not armed, the mode set by
  the first call). Let \<open>s\<close> be the ramp speed of the call (\<open>speedFrom\<close> on the first
  call), \<open>a\<close> the anchor and \<open>t\<close> the counter reading the call takes. For
  \<open>speedFrom < speedTo\<close> the call first invokes \<^verbatim>\<open>run(s)\<close>; while \<open>s \<le> speedTo\<close> it
  returns false, and it raises the ramp speed by exactly 1 and moves the anchor to \<open>t\<close>
  when \<open>t - a > msWait\<close> (otherwise both stay); once \<open>s > speedTo\<close> it returns true and
  rearms. For \<open>speedFrom > speedTo\<close> the same holds with steps of \<open>-1\<close>, completing
  once \<open>s < speedTo\<close>. A call that returns false leaves the motor in the cycle.
\<close>

theorem accelerate_ramp_step:
  "(let s = (if firstRun w then speedFrom else sp w);
        a = (if firstRun w then clock w (reads w) else msPrevious w);
        t = clock w (if firstRun w then Suc (reads w) else reads w)
    in (speedFrom < speedTo \<and> (firstRun w \<or> accelMode w = 0) \<longrightarrow>
          (\<exists>d w'. map_py fl s 0 100 (dutyMin w) (dutyMax w) = Inr d \<and>
             accelerate fl w speedFrom speedTo msWait = Inr (speedTo < s, w') \<and>
             hw w' = hw w @ [Duty d, Pin1 (if rotation w = CW then 1 else 0),
                             Pin2 (if rotation w = CW then 0 else 1)] \<and>
             sp w' = (if s \<le> speedTo \<and> msWait < t - a then s + 1 else s) \<and>
             msPrevious w' = (if s \<le> speedTo \<and> msWait < t - a then t else a) \<and>
             firstRun w' = (speedTo < s) \<and> accelMode w' = 0))
     \<and> (speedTo < speedFrom \<and> (firstRun w \<or> accelMode w = 1) \<longrightarrow>
          (\<exists>d w'. map_py fl s 0 100 (dutyMin w) (dutyMax w) = Inr d \<and>
             accelerate fl w speedFrom speedTo msWait = Inr (s < speedTo, w') \<and>
             hw w' = hw w @ [Duty d, Pin1 (if rotation w = CW then 1 else 0),
                             Pin2 (if rotation w = CW then 0 else 1)] \<and>
             sp w' = (if speedTo \<le> s \<and> msWait < t - a then s - 1 else s) \<and>
             msPrevious w' = (if speedTo \<le> s \<and> msWait < t - a then t else a) \<and>
             firstRun w' = (s < speedTo) \<and> accelMode w' = 1)))"
proof -
  let ?w0 = "w\<lparr>sp := speedFrom, reads := Suc (reads w), msPrevious := clock w (reads w),
        accelMode := (if speedFrom < speedTo then 0 else if speedTo < speedFrom then 1 else 2),
        firstRun := False\<rparr>"
  show ?thesis
  proof (cases "firstRun w")
    case True
    consider "speedFrom < speedTo" | "speedTo < speedFrom" | "speedFrom = speedTo"
      by linarith
    then show ?thesis
    proof cases
      case 1
      with True show ?thesis
        using accelerate_up [of ?w0 speedFrom "clock w (reads w)" "clock w (Suc (reads w))"
            fl speedFrom speedTo msWait]
        by (simp add: accelerate_armed [OF True] Let_def split del: if_split) blast
    next
      case 2
      with True show ?thesis
        using accelerate_down [of ?w0 speedFrom "clock w (reads w)" "clock w (Suc (reads w))"
            fl speedFrom speedTo msWait]
        by (simp add: accelerate_armed [OF True] Let_def split del: if_split) blast
    next
      case 3
      then show ?thesis
        by (simp add: Let_def)
    qed
  next
    case False
    consider "accelMode w = 0" | "accelMode w = 1" | "accelMode w \<noteq> 0 \<and> accelMode w \<noteq> 1"
      by blast
    then show ?thesis
    proof cases
      case 1
      with False show ?thesis
        using accelerate_up [of w "sp w" "msPrevious w" "clock w (reads w)"
            fl speedFrom speedTo msWait]
        by (simp add: Let_def split del: if_split) blast
    next
      case 2
      with False show ?thesis
        using accelerate_down [of w "sp w" "msPrevious w" "clock w (reads w)"
            fl speedFrom speedTo msWait]
        by (simp add: Let_def split del: if_split) blast
    next
      case 3
      with False show ?thesis
        by (simp add: Let_def)
    qed
  qed
qed

theorem accelerate_ramp_step_witness:
  "firstRun (init ''B'' tick400)
   \<and> fst (projr (accelerate id (init ''B'' tick400) 0 100 60)) = False
   \<and> sp (snd (projr (accelerate id (init ''B'' tick400) 0 100 60))) = 1
   \<and> msPrevious (snd (projr (accelerate id (init ''B'' tick400) 0 100 60))) = 400
   \<and> hw (snd (projr (accelerate id (init ''B'' tick400) 0 100 60)))
       = [Duty 0, Pin1 1, Pin2 0, Duty 0, Pin1 1, Pin2 0]
   \<and> fst (projr (accelerate id (init ''B'' tick400) 50 0 100)) = False
   \<and> sp (snd (projr (accelerate id (init ''B'' tick400) 50 0 100))) = 49
   \<and> hw (snd (projr (accelerate id (init ''B'' tick400) 50 0 100)))
       = [Duty 0, Pin1 1, Pin2 0, Duty 512, Pin1 1, Pin2 0]"
proof -
  have d0: "map_py id 0 0 100 0 1023 = Inr 0"
    by (simp add: map_py_def trunc_def floor_rat_one_numeral)
  have d50: "map_py id 50 0 100 0 1023 = Inr 512"
    by (simp add: map_py_def trunc_def)
  show ?thesis
    using accelerate_ramp_step [of "init ''B'' tick400" 0 100 id 60]
      accelerate_ramp_step [of "init ''B'' tick400" 50 0 id 100] d0 d50
    by (auto simp add: init_def tick400_def CW_def PWMRESOLUTIONBITS_def Let_def)
qed

text \<open>
  An increasing ramp polled so that every reading is more than \<open>msWait\<close> after the one
  before it: each call steps once, and the call after the step to \<open>speedTo + 1\<close>
  runs the motor at \<open>speedTo + 1\<close> and completes.
\<close>

lemma poll_accelerate_up_ticking:
  assumes "\<not> firstRun w" and "accelMode w = 0" and "sp w + int n = speedTo + 1"
    and "msWait < clock w (reads w) - msPrevious w"
    and "\<forall>k. msWait < clock w (Suc (reads w + k)) - clock w (reads w + k)"
  shows "\<exists>d w'. map_py fl (speedTo + 1) 0 100 (dutyMin w) (dutyMax w) = Inr d \<and>
     poll_accelerate fl w speedFrom speedTo msWait (Suc n) = Inr (replicate n False @ [True], w') \<and>
     firstRun w' \<and> sp w' = speedTo + 1 \<and> pinPwm w' = d \<and>
     dutyMin w' = dutyMin w \<and> dutyMax w' = dutyMax w"
  using assms
proof (induction n arbitrary: w)
  case 0
  then show ?case
    using accelerate_up [of w "sp w" "msPrevious w" "clock w (reads w)" fl speedFrom speedTo msWait]
    by (simp split del: if_split) force
next
  case (Suc n)
  have le: "sp w \<le> speedTo"
    using Suc.prems(3) by simp
  have q: "msWait < clock w (Suc (reads w + k)) - clock w (reads w + k)" for k
    using Suc.prems(5) by blast
  obtain w1 where w1: "accelerate fl w speedFrom speedTo msWait = Inr (False, w1)"
    "\<not> firstRun w1" "accelMode w1 = 0" "sp w1 = sp w + 1" "msPrevious w1 = clock w (reads w)"
    "reads w1 = Suc (reads w)" "clock w1 = clock w" "dutyMin w1 = dutyMin w" "dutyMax w1 = dutyMax w"
    using accelerate_up [of w "sp w" "msPrevious w" "clock w (reads w)" fl speedFrom speedTo msWait]
      Suc.prems(1,2,4) le by force
  have "sp w1 + int n = speedTo + 1"
    using Suc.prems(3) w1 by simp
  moreover have "msWait < clock w1 (reads w1) - msPrevious w1"
    using q [of 0] w1 by simp
  moreover have "\<forall>k. msWait < clock w1 (Suc (reads w1 + k)) - clock w1 (reads w1 + k)"
    using q [of "Suc _"] w1 by simp
  ultimately obtain d w' where
    "map_py fl (speedTo + 1) 0 100 (dutyMin w1) (dutyMax w1) = Inr d"
    "poll_accelerate fl w1 speedFrom speedTo msWait (Suc n) = Inr (replicate n False @ [True], w')"
    "firstRun w'" "sp w' = speedTo + 1" "pinPwm w' = d"
    "dutyMin w' = dutyMin w1" "dutyMax w' = dutyMax w1"
    using Suc.IH [OF w1(2,3)] by blast
  with w1 show ?case
    by simp
qed

lemma poll_accelerate_up_cycle:
  assumes "firstRun w" and "speedFrom < speedTo"
    and "\<forall>k. msWait < clock w (Suc (reads w + k)) - clock w (reads w + k)"
  shows "\<exists>d w'. map_py fl (speedTo + 1) 0 100 (dutyMin w) (dutyMax w) = Inr d \<and>
     poll_accelerate fl w speedFrom speedTo msWait (Suc (Suc (nat (speedTo - speedFrom))))
       = Inr (replicate (Suc (nat (speedTo - speedFrom))) False @ [True], w') \<and>
     firstRun w' \<and> sp w' = speedTo + 1 \<and> pinPwm w' = d \<and>
     dutyMin w' = dutyMin w \<and> dutyMax w' = dutyMax w"
proof -
  let ?w0 = "w\<lparr>sp := speedFrom, reads := Suc (reads w), msPrevious := clock w (reads w),
        accelMode := (if speedFrom < speedTo then 0 else if speedTo < speedFrom then 1 else 2),
        firstRun := False\<rparr>"
  have q: "msWait < clock w (Suc (reads w + k)) - clock w (reads w + k)" for k
    using assms(3) by blast
  have q0: "msWait < clock w (Suc (reads w)) - clock w (reads w)"
    using q [of 0] by simp
  obtain w1 where w1: "accelerate fl w speedFrom speedTo msWait = Inr (False, w1)"
    "\<not> firstRun w1" "accelMode w1 = 0" "sp w1 = speedFrom + 1"
    "msPrevious w1 = clock w (Suc (reads w))"
    "reads w1 = Suc (Suc (reads w))" "clock w1 = clock w"
    "dutyMin w1 = dutyMin w" "dutyMax w1 = dutyMax w"
    using accelerate_up [of ?w0 speedFrom "clock w (reads w)" "clock w (Suc (reads w))"
        fl speedFrom speedTo msWait] assms(2) q0
    by (simp add: accelerate_armed [OF assms(1)]) force
  have "sp w1 + int (nat (speedTo - speedFrom)) = speedTo + 1"
    using assms(2) w1 by simp
  moreover have "msWait < clock w1 (reads w1) - msPrevious w1"
    using q [of 1] w1 by simp
  moreover have "\<forall>k. msWait < clock w1 (Suc (reads w1 + k)) - clock w1 (reads w1 + k)"
    using q [of "Suc (Suc _)"] w1 by simp
  ultimately obtain d w' where
    "map_py fl (speedTo + 1) 0 100 (dutyMin w1) (dutyMax w1) = Inr d"
    "poll_accelerate fl w1 speedFrom speedTo msWait (Suc (nat (speedTo - speedFrom)))
       = Inr (replicate (nat (speedTo - speedFrom)) False @ [True], w')"
    "firstRun w'" "sp w' = speedTo + 1" "pinPwm w' = d"
    "dutyMin w' = dutyMin w1" "dutyMax w' = dutyMax w1"
    using poll_accelerate_up_ticking [OF w1(2,3), of "nat (speedTo - speedFrom)" speedTo msWait
        fl speedFrom] by blast
  with w1 show ?thesis
    by simp
qed

text \<open>
  Claim C3 (the code departs from it). \<^verbatim>\<open>accelerate(0, 100, 60)\<close> of \<^verbatim>\<open>taskB\<close>,
  polled from a new motor with one counter reading every 61 ms: the calls return false
  101 times and then true. The completing call has run the motor at the ramp speed 101:
  the duty it wrote last is \<open>map(101, 0, 100, 0, 1023) = 1033\<close> (with exact, binary32
  and binary64 operations), above \<open>dutyMax = 1023\<close>.
\<close>

theorem accelerate_runs_past_100:
  "fst (projr (poll_accelerate id (init ''B'' tick61) 0 100 60 102)) = replicate 101 False @ [True]
   \<and> sp (snd (projr (poll_accelerate id (init ''B'' tick61) 0 100 60 102))) = 101
   \<and> map_py id 101 0 100 0 1023 = Inr 1033
   \<and> map_py (fl_binary 24) 101 0 100 0 1023 = Inr 1033
   \<and> map_py (fl_binary 53) 101 0 100 0 1023 = Inr 1033
   \<and> pinPwm (snd (projr (poll_accelerate id (init ''B'' tick61) 0 100 60 102))) = 1033
   \<and> dutyMax (snd (projr (poll_accelerate id (init ''B'' tick61) 0 100 60 102))) = 1023"
proof -
  have a: "firstRun (init ''B'' tick61)"
    by (simp add: init_def)
  have b: "\<forall>k. 60 < tick61 (Suc (reads (init ''B'' tick61) + k))
                   - tick61 (reads (init ''B'' tick61) + k)"
    by (simp add: tick61_def)
  have c: "map_py id 101 0 100 0 1023 = Inr 1033"
    by (simp add: map_py_def trunc_def floor_rat_numeral)
  have d: "dutyMin (init ''B'' tick61) = 0" "dutyMax (init ''B'' tick61) = 1023"
    "clock (init ''B'' tick61) = tick61"
    by (simp_all add: init_def PWMRESOLUTIONBITS_def)
  have e: "Suc (Suc (nat (100 - 0))) = 102" "Suc (nat (100 - 0)) = 101"
    by simp_all
  obtain d' w' where
    "map_py id (100 + 1) 0 100 (dutyMin (init ''B'' tick61)) (dutyMax (init ''B'' tick61)) = Inr d'"
    "poll_accelerate id (init ''B'' tick61) 0 100 60 (Suc (Suc (nat (100 - 0))))
       = Inr (replicate (Suc (nat (100 - 0))) False @ [True], w')"
    "sp w' = 100 + 1" "pinPwm w' = d'" "dutyMax w' = dutyMax (init ''B'' tick61)"
    using poll_accelerate_up_cycle [of "init ''B'' tick61" 0 100 60 id] a b d(3) by auto
  moreover have "map_py (fl_binary 24) 101 0 100 0 1023 = Inr 1033"
    "map_py (fl_binary 53) 101 0 100 0 1023 = Inr 1033"
    by code_simp+
  ultimately show ?thesis
    using c d e by simp
qed

text \<open>
  Claim C1 (the code departs from it). \<^verbatim>\<open>accelerate(50, 50, 10)\<close> on a new motor
  returns true on its first call and leaves \<open>firstRun\<close> false: the motor is not
  rearmed. The \<^verbatim>\<open>runFor\<close> that follows therefore keeps the anchor of the
  \<^verbatim>\<open>accelerate\<close> call (reading 0) instead of taking its own (reading 400).
\<close>

theorem accelerate_constant_not_rearmed:
  "fst (projr (accelerate id (init ''B'' tick400) 50 50 10)) = True
   \<and> firstRun (snd (projr (accelerate id (init ''B'' tick400) 50 50 10))) = False
   \<and> accelMode (snd (projr (accelerate id (init ''B'' tick400) 50 50 10))) = 2
   \<and> msPrevious (snd (projr (accelerate id (init ''B'' tick400) 50 50 10))) = 0
   \<and> reads (snd (projr (accelerate id (init ''B'' tick400) 50 50 10))) = 1
   \<and> msPrevious (snd (projr (runFor id
         (snd (projr (accelerate id (init ''B'' tick400) 50 50 10))) 50 2000))) = 0"
proof -
  let ?w0 = "(init ''B'' tick400)\<lparr>sp := 50, reads := Suc 0, msPrevious := 0,
        accelMode := 2, firstRun := False\<rparr>"
  have arm: "accelerate id (init ''B'' tick400) 50 50 10 = accelerate id ?w0 50 50 10"
    using accelerate_armed [of "init ''B'' tick400" id 50 50 10]
    by (simp add: init_def tick400_def)
  obtain d w' where w': "map_py id (sp ?w0) 0 100 (dutyMin ?w0) (dutyMax ?w0) = Inr d"
    "accelerate id ?w0 50 50 10 = Inr (True, w')"
    "\<not> firstRun w'" "accelMode w' = 2" "msPrevious w' = msPrevious ?w0" "reads w' = reads ?w0"
    using accelerate_constant [of ?w0 id 50 50 10] by auto
  have "msPrevious (snd (projr (runFor id w' 50 2000))) = msPrevious w'"
    using runFor_call [of id 50 w' 2000] w'(3) by auto
  with arm w' show ?thesis
    by simp
qed

section \<open>Elapsed time\<close>

text \<open>
  Claim C2 as stated fails: the comparisons subtract the anchor from the reading as
  unbounded integers. \<^verbatim>\<open>runFor(30, 10)\<close> is armed at reading \<open>2 ^ 30 - 10\<close>; at its
  second call the counter has overflowed and reads 5, which is 15 ms later modulo
  \<open>2 ^ 30\<close>, more than \<open>msToRun = 10\<close>, and the call still returns false.
\<close>

theorem elapsed_not_modular_counterexample:
  "fst (projr (poll_runFor id (init ''A'' wrap_clock) 30 10 2)) = [False, False]
   \<and> msPrevious (snd (projr (poll_runFor id (init ''A'' wrap_clock) 30 10 2))) = wrap_clock 0
   \<and> 10 < spec_elapsed (2 ^ 30) (wrap_clock 2) (wrap_clock 0)
   \<and> wrap_clock 2 - wrap_clock 0 < 0"
proof -
  obtain w1 where w1: "runFor id (init ''A'' wrap_clock) 30 10 = Inr (False, w1)"
    "msPrevious w1 = wrap_clock 0" "reads w1 = 2" "clock w1 = wrap_clock" "\<not> firstRun w1"
    using runFor_call [of id 30 "init ''A'' wrap_clock" 10]
    by (auto simp add: init_def wrap_clock_def)
  obtain w2 where w2: "runFor id w1 30 10 = Inr (False, w2)" "msPrevious w2 = wrap_clock 0"
    using runFor_call [of id 30 w1 10] w1
    by (auto simp add: wrap_clock_def)
  have "poll_runFor id (init ''A'' wrap_clock) 30 10 (Suc (Suc 0)) = Inr ([False, False], w2)"
    using w1 w2 by simp
  then have "poll_runFor id (init ''A'' wrap_clock) 30 10 2 = Inr ([False, False], w2)"
    by (simp add: numeral_2_eq_2)
  with w2 show ?thesis
    by (simp add: spec_elapsed_def wrap_clock_def)
qed

text \<open>
  Claim C2, amended. Every elapsed-time comparison of \<^verbatim>\<open>runFor\<close>, \<^verbatim>\<open>waitFor\<close> and
  \<^verbatim>\<open>accelerate\<close> uses the plain integer difference \<open>t - a\<close> of the reading \<open>t\<close>
  taken in the call and the anchor \<open>a\<close>: it decides the result of \<^verbatim>\<open>runFor\<close> and
  \<^verbatim>\<open>waitFor\<close> and whether a ramp steps. When the counter has not overflowed between
  the anchor and the reading (\<open>0 \<le> a \<le> t < period\<close>) the difference is the modular
  distance, and the decisions are those of the modular subtraction.
\<close>

theorem elapsed_plain_difference:
  "(let a = (if firstRun w then clock w (reads w) else msPrevious w);
        t = clock w (if firstRun w then Suc (reads w) else reads w);
        s = (if firstRun w then speedFrom else sp w)
    in fst (projr (runFor fl w speed ms)) = (ms < t - a)
     \<and> fst (waitFor w ms) = (ms < t - a)
     \<and> (speedFrom < speedTo \<and> (firstRun w \<or> accelMode w = 0) \<and> s \<le> speedTo \<longrightarrow>
          sp (snd (projr (accelerate fl w speedFrom speedTo ms)))
            = (if ms < t - a then s + 1 else s))
     \<and> (speedTo < speedFrom \<and> (firstRun w \<or> accelMode w = 1) \<and> speedTo \<le> s \<longrightarrow>
          sp (snd (projr (accelerate fl w speedFrom speedTo ms)))
            = (if ms < t - a then s - 1 else s))
     \<and> (0 \<le> a \<and> a \<le> t \<and> t < period \<longrightarrow>
          t - a = spec_elapsed period t a
          \<and> fst (projr (runFor fl w speed ms)) = (ms < spec_elapsed period t a)
          \<and> fst (waitFor w ms) = (ms < spec_elapsed period t a)))"
proof -
  let ?a = "if firstRun w then clock w (reads w) else msPrevious w"
  let ?t = "clock w (if firstRun w then Suc (reads w) else reads w)"
  let ?s = "if firstRun w then speedFrom else sp w"
  let ?w0 = "w\<lparr>sp := speedFrom, reads := Suc (reads w), msPrevious := clock w (reads w),
        accelMode := (if speedFrom < speedTo then 0 else if speedTo < speedFrom then 1 else 2),
        firstRun := False\<rparr>"
  have rf: "fst (projr (runFor fl w speed ms)) = (ms < ?t - ?a)"
  proof -
    obtain w' where "runFor fl w speed ms = Inr (ms < ?t - ?a, w')"
      using runFor_call [of fl speed w ms] by blast
    then show ?thesis by simp
  qed
  have wf: "fst (waitFor w ms) = (ms < ?t - ?a)"
  proof -
    obtain w' where "waitFor w ms = (ms < ?t - ?a, w')"
      using waitFor_call [of w ms] by blast
    then show ?thesis by simp
  qed
  have up: "sp (snd (projr (accelerate fl w speedFrom speedTo ms)))
            = (if ms < ?t - ?a then ?s + 1 else ?s)"
    if h: "speedFrom < speedTo" "firstRun w \<or> accelMode w = 0" "?s \<le> speedTo"
  proof (cases "firstRun w")
    case True
    obtain w' where "accelerate fl ?w0 speedFrom speedTo ms = Inr (speedTo < speedFrom, w')"
      "sp w' = (if speedFrom \<le> speedTo \<and> ms < clock w (Suc (reads w)) - clock w (reads w)
                then speedFrom + 1 else speedFrom)"
      using h(1) accelerate_up [of ?w0 speedFrom "clock w (reads w)" "clock w (Suc (reads w))"
          fl speedFrom speedTo ms]
      by (simp split del: if_split) blast
    with True h show ?thesis
      by (simp add: accelerate_armed [OF True])
  next
    case False
    obtain w' where "accelerate fl w speedFrom speedTo ms = Inr (speedTo < sp w, w')"
      "sp w' = (if sp w \<le> speedTo \<and> ms < clock w (reads w) - msPrevious w
                then sp w + 1 else sp w)"
      using h(2) False accelerate_up [of w "sp w" "msPrevious w" "clock w (reads w)"
          fl speedFrom speedTo ms]
      by (simp split del: if_split) blast
    with False h show ?thesis
      by simp
  qed
  have down: "sp (snd (projr (accelerate fl w speedFrom speedTo ms)))
            = (if ms < ?t - ?a then ?s - 1 else ?s)"
    if h: "speedTo < speedFrom" "firstRun w \<or> accelMode w = 1" "speedTo \<le> ?s"
  proof (cases "firstRun w")
    case True
    obtain w' where "accelerate fl ?w0 speedFrom speedTo ms = Inr (speedFrom < speedTo, w')"
      "sp w' = (if speedTo \<le> speedFrom \<and> ms < clock w (Suc (reads w)) - clock w (reads w)
                then speedFrom - 1 else speedFrom)"
      using h(1) accelerate_down [of ?w0 speedFrom "clock w (reads w)" "clock w (Suc (reads w))"
          fl speedFrom speedTo ms]
      by (simp split del: if_split) blast
    with True h show ?thesis
      by (simp add: accelerate_armed [OF True])
  next
    case False
    obtain w' where "accelerate fl w speedFrom speedTo ms = Inr (sp w < speedTo, w')"
      "sp w' = (if speedTo \<le> sp w \<and> ms < clock w (reads w) - msPrevious w
                then sp w - 1 else sp w)"
      using h(2) False accelerate_down [of w "sp w" "msPrevious w" "clock w (reads w)"
          fl speedFrom speedTo ms]
      by (simp split del: if_split) blast
    with False h show ?thesis
      by simp
  qed
  have md: "?t - ?a = spec_elapsed period ?t ?a" if "0 \<le> ?a" "?a \<le> ?t" "?t < period"
    using that by (simp add: spec_elapsed_def)
  show ?thesis
    unfolding Let_def using rf wf up down md by metis
qed

theorem elapsed_plain_difference_witness:
  "firstRun (init ''A'' tick400)
   \<and> fst (projr (runFor id (init ''A'' tick400) 30 300)) = True
   \<and> fst (waitFor (init ''A'' tick400) 300) = True
   \<and> sp (snd (projr (accelerate id (init ''A'' tick400) 0 100 300))) = 1
   \<and> sp (snd (projr (accelerate id (init ''A'' tick400) 50 0 300))) = 49
   \<and> (0::int) \<le> 400 \<and> (400::int) < 2 ^ 30
   \<and> spec_elapsed (2 ^ 30) 400 0 = 400"
  using elapsed_plain_difference [where w = "init ''A'' tick400" and fl = id and speed = 30
      and ms = 300 and speedFrom = 0 and speedTo = 100 and period = "2 ^ 30"]
    elapsed_plain_difference [where w = "init ''A'' tick400" and fl = id and speed = 30
      and ms = 300 and speedFrom = 50 and speedTo = 0 and period = "2 ^ 30"]
  by (simp add: init_def tick400_def Let_def)

section \<open>Rounding to binary floats\<close>



lemma round_half_even_of_int [simp]: "round_half_even (of_int n) = n"
  by (simp add: round_half_even_def)



lemma float_exp_minus [simp]: "float_exp (- r) = float_exp r"
  by (simp add: float_exp_def)



lemma fl_binary_zero [simp]: "fl_binary p 0 = 0"
  by (simp add: fl_binary_def)





section \<open>Properties of the mapping function\<close>












end
